theory Spec2Isabelle
  imports Complex_Main "HOL-Library.Sublist"
begin

section \<open>Numbers and strings of the source\<close>

text \<open>
  The program is JavaScript. Its numbers are modelled as \<^typ>\<open>real\<close>: arithmetic is
  exact, so rounding, \<open>Infinity\<close> and \<open>NaN\<close> are outside the model (the one \<open>NaN\<close> the
  code tests for, an unparsable salary field, is the value \<open>None\<close> of
  \<open>handleConvert\<close>'s salary argument). A division by zero, which HOL evaluates to 0 and
  JavaScript to \<open>Infinity\<close> or \<open>NaN\<close>, is excluded by hypothesis wherever a statement
  depends on it.

  Strings are \<^typ>\<open>string\<close>; a \<^typ>\<open>char\<close> is read as the code unit U+0000..U+00FF of
  that number, and the three string methods the resolver uses are modelled on that range.
\<close>

definition isUpper :: "char \<Rightarrow> bool" where
  \<comment> \<open>the code units below U+0100 that \<open>toLowerCase\<close> changes: A-Z and the Latin-1
      capitals U+00C0..U+00DE without the multiplication sign U+00D7\<close>
  "isUpper c =
     (let n = (of_char c :: nat)
      in (65 \<le> n \<and> n \<le> 90) \<or> (192 \<le> n \<and> n \<le> 222 \<and> n \<noteq> 215))"

definition toLowerChar :: "char \<Rightarrow> char" where
  "toLowerChar c = (if isUpper c then char_of (of_char c + (32::nat)) else c)"

definition toLowerCase :: "string \<Rightarrow> string" where
  "toLowerCase s = map toLowerChar s"

definition isWhiteSpace :: "char \<Rightarrow> bool" where
  \<comment> \<open>what \<open>trim\<close> strips, below U+0100: TAB, LF, VT, FF, CR, SPACE, NBSP\<close>
  "isWhiteSpace c = ((of_char c :: nat) \<in> {9, 10, 11, 12, 13, 32, 160})"

definition trim :: "string \<Rightarrow> string" where
  "trim s = rev (dropWhile isWhiteSpace (rev (dropWhile isWhiteSpace s)))"

definition removePeriods :: "string \<Rightarrow> string" where
  \<comment> \<open>\<open>.replace(/\./g, '')\<close>\<close>
  "removePeriods s = filter (\<lambda>c. c \<noteq> CHR ''.'') s"

fun includes_str :: "string \<Rightarrow> string \<Rightarrow> bool" where
  \<comment> \<open>\<open>s.includes(t)\<close>: \<open>t\<close> occurs in \<open>s\<close> as a contiguous run\<close>
  "includes_str [] t = (t = [])"
| "includes_str (c # s) t = (prefix t (c # s) \<or> includes_str s t)"

definition truthy :: "string \<Rightarrow> bool" where
  \<comment> \<open>a string in a condition: only the empty string is falsy\<close>
  "truthy s = (s \<noteq> [])"


section \<open>Salary progression: \<open>calculateProgression\<close>\<close>

record data =
  startingSalary :: real
  colCompensation :: real
  promotionIncrease :: real

record row =
  year :: nat
  promotionNumber :: nat
  startingSalary :: real
  finalSalary :: real
  colCompensation :: real
  promotionRaise :: real
  increase :: real

text \<open>
  The variables that the loop of \<open>calculateProgression\<close> updates. The function's own
  \<open>previousSalary\<close> is assigned and never read (the loop body declares another one of
  that name), so it is not among them.
\<close>

record vars =
  currentSalary :: real
  totalEarned :: real
  promotionNumber :: nat
  progression :: "row list"

text \<open>
  What \<open>calculateProgression\<close> returns. The source's fifth field, \<open>avgAnnualGrowth\<close>
  (a twentieth root taken with \<open>Math.pow\<close>), is not rational arithmetic and is left out.
\<close>

record result =
  progression :: "row list"
  finalSalary :: real
  totalEarned :: real
  totalIncrease :: real

text \<open>
  One pass through the loop body for the given \<open>year\<close>; \<open>selectedYears\<close> is the set
  \<open>this.selectedYears\<close>, which \<open>toggleYear\<close> fills with years between 1 and 20.
\<close>

definition iteration :: "nat set \<Rightarrow> data \<Rightarrow> nat \<Rightarrow> vars \<Rightarrow> vars" where
  "iteration selectedYears d yr v =
     (let startingSalary = currentSalary v;
          colIncrease =
            (if yr > 0 then startingSalary * (data.colCompensation d / 100) else 0);
          promotionIncrease =
            (if yr > 0 \<and> yr \<in> selectedYears
             then startingSalary * (data.promotionIncrease d / 100) else 0);
          promotionNumber =
            (if yr > 0 \<and> yr \<in> selectedYears
             then vars.promotionNumber v + 1 else vars.promotionNumber v);
          finalSalary = startingSalary + colIncrease + promotionIncrease;
          increase =
            (if yr > 0
             then (let previousSalary =
                         (if yr = 1 then data.startingSalary d
                          else row.finalSalary (last (vars.progression v)))
                   in ((finalSalary - previousSalary) / previousSalary) * 100)
             else 0)
      in \<lparr> currentSalary = finalSalary,
           totalEarned = vars.totalEarned v + finalSalary,
           promotionNumber = promotionNumber,
           progression = vars.progression v @
             [\<lparr> year = yr,
                promotionNumber =
                  (if yr > 0 \<and> yr \<in> selectedYears then promotionNumber else 0),
                startingSalary = startingSalary,
                finalSalary = finalSalary,
                colCompensation = colIncrease,
                promotionRaise = promotionIncrease,
                increase = increase \<rparr>] \<rparr>)"

function loop :: "nat set \<Rightarrow> data \<Rightarrow> nat \<Rightarrow> vars \<Rightarrow> vars" where
  \<comment> \<open>\<open>for (let year = 0; year <= 20; year++)\<close>, entered at \<open>yr\<close>\<close>
  "loop selectedYears d yr v =
     (if yr \<le> 20 then loop selectedYears d (Suc yr) (iteration selectedYears d yr v)
      else v)"
  by pat_completeness auto
termination
  by (relation "measure (\<lambda>(selectedYears, d, yr, v). 21 - yr)") auto

definition initial :: "data \<Rightarrow> vars" where
  "initial d =
     \<lparr> currentSalary = data.startingSalary d, totalEarned = 0,
       promotionNumber = 0, progression = [] \<rparr>"

definition calculateProgression :: "nat set \<Rightarrow> data \<Rightarrow> result" where
  "calculateProgression selectedYears d =
     (let v = loop selectedYears d 0 (initial d)
      in \<lparr> progression = vars.progression v,
           finalSalary = currentSalary v,
           totalEarned = vars.totalEarned v,
           totalIncrease =
             ((currentSalary v - data.startingSalary d) / data.startingSalary d) * 100 \<rparr>)"


text \<open>
  The scenario of the specification: 60000 to start, 3 percent cost of living, 10 percent
  per promotion, promotions in years 5, 10 and 15.
\<close>

definition scenario_data :: data where
  "scenario_data =
     \<lparr> data.startingSalary = 60000, data.colCompensation = 3,
       data.promotionIncrease = 10 \<rparr>"

definition scenario_years :: "nat set" where
  "scenario_years = {5, 10, 15}"

definition flat_data :: data where
  "flat_data =
     \<lparr> data.startingSalary = 60000, data.colCompensation = 0,
       data.promotionIncrease = 10 \<rparr>"


section \<open>City resolution: \<open>resolveCity\<close>\<close>

text \<open>An element of \<open>this.msaData\<close> (the file \<open>data/msas.json\<close>).\<close>

record metro =
  msa :: string
  cbsa :: string
  aliases :: "string list"

text \<open>
  The expression \<open>s.toLowerCase().trim().replace(/\./g, '')\<close>, which the source applies to
  the query and, in the first loop only, to each alias.
\<close>

definition normalizeText :: "string \<Rightarrow> string" where
  "normalizeText s = removePeriods (trim (toLowerCase s))"

text \<open>
  The test of each of the three loops on one metro. \<open>Array.prototype.find\<close> returns the
  first alias that satisfies the callback, or \<open>undefined\<close>; the source then tests what
  was found for truthiness, so that a found alias that is the empty string does not count.
\<close>

definition exactAliasMatch :: "string \<Rightarrow> metro \<Rightarrow> bool" where
  "exactAliasMatch normalized m =
     (case find (\<lambda>alias. normalizeText alias = normalized) (aliases m)
      of None \<Rightarrow> False
       | Some found \<Rightarrow> truthy found)"

definition containsAliasMatch :: "string \<Rightarrow> metro \<Rightarrow> bool" where
  "containsAliasMatch normalized m =
     (case find (\<lambda>alias. includes_str (toLowerCase alias) normalized \<or>
                         includes_str normalized (toLowerCase alias)) (aliases m)
      of None \<Rightarrow> False
       | Some found \<Rightarrow> truthy found)"

definition msaNameMatch :: "string \<Rightarrow> metro \<Rightarrow> bool" where
  "msaNameMatch normalized m =
     (let msaNormalized = removePeriods (toLowerCase (msa m))
      in includes_str msaNormalized normalized \<or> includes_str normalized msaNormalized)"

text \<open>
  The three \<open>for (const msa of this.msaData)\<close> loops; each returns from \<open>resolveCity\<close>
  at its first hit. The returned object \<open>{ cbsa, msa }\<close> is the pair \<open>(cbsa, msa)\<close>.
\<close>

fun exactAliasLoop :: "string \<Rightarrow> metro list \<Rightarrow> (string \<times> string) option" where
  "exactAliasLoop normalized [] = None"
| "exactAliasLoop normalized (m # rest) =
     (if exactAliasMatch normalized m then Some (cbsa m, msa m)
      else exactAliasLoop normalized rest)"

fun containsAliasLoop :: "string \<Rightarrow> metro list \<Rightarrow> (string \<times> string) option" where
  "containsAliasLoop normalized [] = None"
| "containsAliasLoop normalized (m # rest) =
     (if containsAliasMatch normalized m then Some (cbsa m, msa m)
      else containsAliasLoop normalized rest)"

fun msaNameLoop :: "string \<Rightarrow> metro list \<Rightarrow> (string \<times> string) option" where
  "msaNameLoop normalized [] = None"
| "msaNameLoop normalized (m # rest) =
     (if msaNameMatch normalized m then Some (cbsa m, msa m)
      else msaNameLoop normalized rest)"

definition resolveCity :: "metro list \<Rightarrow> string \<Rightarrow> (string \<times> string) option" where
  \<comment> \<open>\<open>None\<close> is the source's \<open>null\<close>\<close>
  "resolveCity msaData cityName =
     (if \<not> truthy cityName then None
      else
        (let normalized = normalizeText cityName
         in case exactAliasLoop normalized msaData of
              Some r \<Rightarrow> Some r
            | None \<Rightarrow>
               (case containsAliasLoop normalized msaData of
                  Some r \<Rightarrow> Some r
                | None \<Rightarrow> msaNameLoop normalized msaData)))"

text \<open>
  The three tier tests in the words of the specification, to be compared with the
  tests of the code above: the query and the alias or canonical name are both in
  normalized form, and a metro passes an alias tier when any of its aliases does.
\<close>

definition spec_exactAliasMatch :: "string \<Rightarrow> metro \<Rightarrow> bool" where
  "spec_exactAliasMatch normalized m =
     (\<exists>alias \<in> set (aliases m). normalizeText alias = normalized)"

definition spec_substringAliasMatch :: "string \<Rightarrow> metro \<Rightarrow> bool" where
  "spec_substringAliasMatch normalized m =
     (\<exists>alias \<in> set (aliases m).
        includes_str (normalizeText alias) normalized \<or>
        includes_str normalized (normalizeText alias))"

definition spec_substringNameMatch :: "string \<Rightarrow> metro \<Rightarrow> bool" where
  "spec_substringNameMatch normalized m =
     (includes_str (normalizeText (msa m)) normalized \<or>
      includes_str normalized (normalizeText (msa m)))"


section \<open>Cost-of-living conversion: \<open>handleConvert\<close>\<close>

text \<open>
  The ways \<open>handleConvert\<close> ends without a result: the three \<open>Error\<close>s it throws (two
  of its own and the one of \<open>fetchRPP\<close>, with the region code) and the three field errors
  it shows before returning.
\<close>

datatype error =
    FillInAllFields
  | SalaryOutOfRange
  | FromCityNotRecognized
  | ToCityNotRecognized
  | SameDestination
  | NoRPPData string

text \<open>The object that \<open>handleConvert\<close> passes to \<open>displayResults\<close>.\<close>

record conversion =
  fromMSA :: "string \<times> string"
  toMSA :: "string \<times> string"
  salary :: real
  equivalent :: real
  delta :: real
  fromRPP :: real
  toRPP :: real
  ratio :: real

text \<open>
  \<open>this.rppCache\<close> (the file \<open>data/rpp_cache.json\<close>) is a map from region code to the
  \<open>value\<close> of its entry; an entry is an object, so \<open>!data\<close> holds exactly when the key
  is absent.
\<close>

definition fetchRPP :: "(string \<rightharpoonup> real) \<Rightarrow> string \<Rightarrow> error + real" where
  "fetchRPP rppCache code =
     (case rppCache code of None \<Rightarrow> Inl (NoRPPData code) | Some v \<Rightarrow> Inr v)"

text \<open>
  \<open>handleConvert\<close> on the texts of the two city fields and on what \<open>parseFloat\<close> made of
  the salary field (\<open>None\<close> for \<open>NaN\<close>, for which \<open>!salary\<close> holds as it does for 0).
  What it does to the page (messages, spinner, address bar) is not modelled. Of the two
  \<open>fetchRPP\<close> calls under \<open>Promise.all\<close> the error of the first one wins. The bound
  names \<open>amount\<close>, \<open>src\<close>, \<open>dst\<close>, \<open>srcValue\<close> and \<open>dstValue\<close> are the source's
  \<open>salary\<close>, \<open>fromMSA\<close>, \<open>toMSA\<close>, \<open>fromRPP.value\<close> and \<open>toRPP.value\<close>; both
  cities are resolved before either result is tested, which for a function without
  effects is the order written here.
\<close>

definition handleConvert ::
  "metro list \<Rightarrow> (string \<rightharpoonup> real) \<Rightarrow> string \<Rightarrow> string \<Rightarrow> real option \<Rightarrow> error + conversion"
where
  "handleConvert msaData rppCache fromField toField salaryField =
     (let fromCity = trim fromField; toCity = trim toField
      in case salaryField of
           None \<Rightarrow> Inl FillInAllFields
         | Some amount \<Rightarrow>
            if \<not> truthy fromCity \<or> \<not> truthy toCity \<or> amount = 0 then Inl FillInAllFields
            else if amount < 15000 \<or> amount > 5000000 then Inl SalaryOutOfRange
            else
              (case resolveCity msaData fromCity of
                 None \<Rightarrow> Inl FromCityNotRecognized
               | Some src \<Rightarrow>
                  (case resolveCity msaData toCity of
                     None \<Rightarrow> Inl ToCityNotRecognized
                   | Some dst \<Rightarrow>
                      if fst src = fst dst then Inl SameDestination
                      else
                        (case fetchRPP rppCache (fst src) of
                           Inl e \<Rightarrow> Inl e
                         | Inr srcValue \<Rightarrow>
                            (case fetchRPP rppCache (fst dst) of
                               Inl e \<Rightarrow> Inl e
                             | Inr dstValue \<Rightarrow>
                                (let ratio = dstValue / srcValue;
                                     equivalent = amount * ratio;
                                     delta = ((equivalent - amount) / amount) * 100
                                 in Inr \<lparr> fromMSA = src, toMSA = dst,
                                          salary = amount, equivalent = equivalent,
                                          delta = delta, fromRPP = srcValue,
                                          toRPP = dstValue, ratio = ratio \<rparr>))))))"

text \<open>Tables for the examples below.\<close>

definition new_york :: metro where
  "new_york =
     \<lparr> msa = ''New York-Newark-Jersey City'', cbsa = ''35620'',
       aliases = [''NYC'', ''New York''] \<rparr>"

definition boston :: metro where
  "boston =
     \<lparr> msa = ''Boston-Cambridge-Newton'', cbsa = ''14460'', aliases = [''Boston''] \<rparr>"

definition st_louis :: metro where
  "st_louis =
     \<lparr> msa = ''St. Louis, MO-IL'', cbsa = ''41180'',
       aliases = [''St. Louis'', ''Saint Louis''] \<rparr>"

definition york :: metro where
  "york = \<lparr> msa = ''York-Hanover'', cbsa = ''49620'', aliases = [''York''] \<rparr>"

definition period_alias :: metro where
  "period_alias =
     \<lparr> msa = ''Washington-Arlington-Alexandria'', cbsa = ''47900'', aliases = [''.''] \<rparr>"

definition blank_first_alias :: metro where
  "blank_first_alias = \<lparr> msa = ''Xyz'', cbsa = ''00001'', aliases = ['''', ''abcd''] \<rparr>"

definition padded_alias :: metro where
  "padded_alias = \<lparr> msa = ''Xyz'', cbsa = ''00002'', aliases = ['' abc''] \<rparr>"

definition padded_name :: metro where
  "padded_name = \<lparr> msa = '' Abc'', cbsa = ''00003'', aliases = [] \<rparr>"

definition example_rpp :: "string \<rightharpoonup> real" where
  "example_rpp = [''35620'' \<mapsto> 120, ''14460'' \<mapsto> 80]"


section \<open>The loop invariant of \<open>calculateProgression\<close>\<close>

text \<open>
  What row \<open>y\<close> of the table holds, in terms of the row before it, and what the loop
  variables hold when the loop is about to run year \<open>k\<close>.
\<close>

definition row_ok :: "nat set \<Rightarrow> data \<Rightarrow> row list \<Rightarrow> nat \<Rightarrow> bool" where
  "row_ok sel d rows y \<longleftrightarrow>
     year (rows ! y) = y \<and>
     row.startingSalary (rows ! y) =
       (if y = 0 then data.startingSalary d else row.finalSalary (rows ! (y - 1))) \<and>
     row.colCompensation (rows ! y) =
       (if y = 0 then 0 else row.startingSalary (rows ! y) * (data.colCompensation d / 100)) \<and>
     promotionRaise (rows ! y) =
       (if 0 < y \<and> y \<in> sel
        then row.startingSalary (rows ! y) * (data.promotionIncrease d / 100) else 0) \<and>
     row.finalSalary (rows ! y) =
       row.startingSalary (rows ! y) + row.colCompensation (rows ! y) + promotionRaise (rows ! y) \<and>
     row.promotionNumber (rows ! y) =
       (if 0 < y \<and> y \<in> sel then card {j \<in> sel. 0 < j \<and> j \<le> y} else 0)"

definition loop_inv :: "nat set \<Rightarrow> data \<Rightarrow> nat \<Rightarrow> vars \<Rightarrow> bool" where
  "loop_inv sel d k v \<longleftrightarrow>
     length (vars.progression v) = k \<and>
     currentSalary v =
       (if k = 0 then data.startingSalary d
        else row.finalSalary (vars.progression v ! (k - 1))) \<and>
     vars.promotionNumber v = card {j \<in> sel. 0 < j \<and> j < k} \<and>
     (\<forall>y<k. row_ok sel d (vars.progression v) y)"

lemma loop_inv_initial: "loop_inv sel d 0 (initial d)"
  by (simp add: loop_inv_def initial_def)

lemma selected_upto_Suc:
  "{j \<in> sel. 0 < j \<and> j < Suc k} =
     (if 0 < k \<and> k \<in> sel then insert k {j \<in> sel. 0 < j \<and> j < k}
      else {j \<in> sel. 0 < j \<and> j < k})"
  by (auto simp: less_Suc_eq)

lemma selected_le_eq: "{j \<in> sel. 0 < j \<and> j \<le> k} = {j \<in> sel. 0 < j \<and> j < Suc k}"
  by auto

lemma card_selected_Suc:
  "card {j \<in> sel. 0 < j \<and> j < Suc k} =
     (if 0 < k \<and> k \<in> sel then Suc (card {j \<in> sel. 0 < j \<and> j < k})
      else card {j \<in> sel. 0 < j \<and> j < k})"
proof -
  have fin: "finite {j \<in> sel. 0 < j \<and> j < k}" by simp
  have notin: "k \<notin> {j \<in> sel. 0 < j \<and> j < k}" by simp
  show ?thesis
    unfolding selected_upto_Suc using fin notin by simp
qed

lemma row_ok_append:
  assumes "y < length rows"
  shows "row_ok sel d (rows @ [r]) y = row_ok sel d rows y"
proof -
  have "y - 1 < length rows" using assms by simp
  with assms show ?thesis by (simp add: row_ok_def nth_append)
qed

lemma loop_inv_iteration:
  assumes "loop_inv sel d k v"
  shows "loop_inv sel d (Suc k) (iteration sel d k v)"
proof -
  from assms have len: "length (vars.progression v) = k"
    and cur: "currentSalary v =
       (if k = 0 then data.startingSalary d
        else row.finalSalary (vars.progression v ! (k - 1)))"
    and pn: "vars.promotionNumber v = card {j \<in> sel. 0 < j \<and> j < k}"
    and old: "\<forall>y<k. row_ok sel d (vars.progression v) y"
    by (simp_all add: loop_inv_def)
  have l: "length (vars.progression (iteration sel d k v)) = Suc k"
    using len by (simp add: iteration_def Let_def)
  have c: "currentSalary (iteration sel d k v) =
      row.finalSalary (vars.progression (iteration sel d k v) ! k)"
    using len by (simp add: iteration_def Let_def nth_append)
  have p: "vars.promotionNumber (iteration sel d k v) = card {j \<in> sel. 0 < j \<and> j < Suc k}"
    using pn by (simp add: iteration_def Let_def card_selected_Suc)
  have new: "row_ok sel d (vars.progression (iteration sel d k v)) k"
    using len cur pn
    by (simp add: iteration_def Let_def row_ok_def nth_append selected_le_eq card_selected_Suc)
  have keep: "row_ok sel d (vars.progression (iteration sel d k v)) y" if "y < k" for y
  proof -
    have "vars.progression (iteration sel d k v) =
        vars.progression v @ [last (vars.progression (iteration sel d k v))]"
      by (simp add: iteration_def Let_def)
    then show ?thesis
      using row_ok_append [of y "vars.progression v" sel d] that len old
      by metis
  qed
  show ?thesis
    unfolding loop_inv_def using l c p new keep by (auto simp: less_Suc_eq)
qed

lemma loop_inv_loop:
  "loop_inv sel d k v \<Longrightarrow> k \<le> 21 \<Longrightarrow> loop_inv sel d 21 (loop sel d k v)"
proof (induction sel d k v rule: loop.induct)
  case (1 sel d yr v)
  show ?case
  proof (cases "yr \<le> 20")
    case True
    then have "loop_inv sel d 21 (loop sel d (Suc yr) (iteration sel d yr v))"
      using 1 loop_inv_iteration by simp
    then show ?thesis using True by (simp add: loop.simps [of sel d yr v])
  next
    case False
    then have "yr = 21" using 1(3) by simp
    then show ?thesis using 1(2) False by (simp add: loop.simps [of sel d yr v])
  qed
qed

lemma loop_inv_final: "loop_inv sel d 21 (loop sel d 0 (initial d))"
  using loop_inv_loop [OF loop_inv_initial] by simp

lemma progression_length: "length (result.progression (calculateProgression sel d)) = 21"
  using loop_inv_final [of sel d] by (simp add: calculateProgression_def Let_def loop_inv_def)

lemma progression_row_ok:
  "y \<le> 20 \<Longrightarrow> row_ok sel d (result.progression (calculateProgression sel d)) y"
  using loop_inv_final [of sel d] by (simp add: calculateProgression_def Let_def loop_inv_def)

lemma result_finalSalary:
  "result.finalSalary (calculateProgression sel d) =
     row.finalSalary (result.progression (calculateProgression sel d) ! 20)"
  using loop_inv_final [of sel d] by (simp add: calculateProgression_def Let_def loop_inv_def)

lemma row_zero:
  "row.startingSalary (result.progression (calculateProgression sel d) ! 0) = data.startingSalary d"
  "row.finalSalary (result.progression (calculateProgression sel d) ! 0) = data.startingSalary d"
  using progression_row_ok [of 0 sel d] by (simp_all add: row_ok_def)

lemma row_later:
  assumes "1 \<le> y" "y \<le> 20"
  shows "year (result.progression (calculateProgression sel d) ! y) = y"
    and "row.startingSalary (result.progression (calculateProgression sel d) ! y) =
         row.finalSalary (result.progression (calculateProgression sel d) ! (y - 1))"
    and "row.colCompensation (result.progression (calculateProgression sel d) ! y) =
         row.startingSalary (result.progression (calculateProgression sel d) ! y) *
           (data.colCompensation d / 100)"
    and "row.finalSalary (result.progression (calculateProgression sel d) ! y) =
         row.startingSalary (result.progression (calculateProgression sel d) ! y) *
           (1 + data.colCompensation d / 100 +
              (if y \<in> sel then data.promotionIncrease d / 100 else 0))"
  using progression_row_ok [of y sel d] assms
  by (simp_all add: row_ok_def algebra_simps)

lemma col_only_row:
  "y \<le> 20 \<Longrightarrow>
   row.finalSalary (result.progression (calculateProgression {} d) ! y) =
     data.startingSalary d * (1 + data.colCompensation d / 100) ^ y"
proof (induction y)
  case 0
  show ?case by (simp add: row_zero)
next
  case (Suc y)
  then have y: "1 \<le> Suc y" "Suc y \<le> 20" and prev: "y \<le> 20" by simp_all
  show ?case
    using row_later(2) [OF y, of "{}" d] row_later(4) [OF y, of "{}" d] Suc.IH [OF prev]
    by simp
qed

lemma promotionNumber_row:
  "y \<le> 20 \<Longrightarrow>
   row.promotionNumber (result.progression (calculateProgression sel d) ! y) =
     (if 0 < y \<and> y \<in> sel then card {j \<in> sel. 0 < j \<and> j \<le> y} else 0)"
  using progression_row_ok [of y sel d] by (simp add: row_ok_def)

lemma selected_positive:
  "sel \<subseteq> {1..20} \<Longrightarrow> {j \<in> sel. 0 < j \<and> j \<le> y} = {j \<in> sel. j \<le> (y::nat)}"
  by auto

lemma card_selected_strict:
  assumes "y \<in> sel" "y' \<in> sel" "y < (y'::nat)"
  shows "card {j \<in> sel. j \<le> y} < card {j \<in> sel. j \<le> y'}"
proof (rule psubset_card_mono)
  show "finite {j \<in> sel. j \<le> y'}" by simp
  have "y' \<in> {j \<in> sel. j \<le> y'}" "y' \<notin> {j \<in> sel. j \<le> y}" using assms by simp_all
  moreover have "{j \<in> sel. j \<le> y} \<subseteq> {j \<in> sel. j \<le> y'}" using assms by auto
  ultimately show "{j \<in> sel. j \<le> y} \<subset> {j \<in> sel. j \<le> y'}" by blast
qed


section \<open>Properties of the salary progression\<close>

text \<open>
  Claim C1. For every starting salary, cost-of-living rate, promotion rate and set of
  promotion years, the table has 21 rows; row 0 starts and ends at the salary entered;
  and for every year 1..20 the row of that year starts at the final salary of the year
  before, its cost-of-living amount is its starting salary times the rate over 100
  (whether or not the year is a promotion year), and its final salary is its starting
  salary times 1 + colRate/100 + promotionRate/100 if the year is a promotion year,
  times 1 + colRate/100 otherwise. Numbers are exact reals.
\<close>

theorem progression_recurrence:
  "(let rows = result.progression (calculateProgression selectedYears d) in
     length rows = 21 \<and>
     row.startingSalary (rows ! 0) = data.startingSalary d \<and>
     row.finalSalary (rows ! 0) = data.startingSalary d \<and>
     (\<forall>y\<in>{1..20}.
        year (rows ! y) = y \<and>
        row.startingSalary (rows ! y) = row.finalSalary (rows ! (y - 1)) \<and>
        row.colCompensation (rows ! y) =
          row.startingSalary (rows ! y) * (data.colCompensation d / 100) \<and>
        row.finalSalary (rows ! y) =
          row.startingSalary (rows ! y) *
            (1 + data.colCompensation d / 100 +
               (if y \<in> selectedYears then data.promotionIncrease d / 100 else 0))))"
  unfolding Let_def
proof (intro conjI ballI)
  show "length (result.progression (calculateProgression selectedYears d)) = 21"
    by (rule progression_length)
next
  show "row.startingSalary (result.progression (calculateProgression selectedYears d) ! 0) =
        data.startingSalary d"
    by (rule row_zero)
next
  show "row.finalSalary (result.progression (calculateProgression selectedYears d) ! 0) =
        data.startingSalary d"
    by (rule row_zero)
next
  fix y :: nat assume "y \<in> {1..20}"
  then have y: "1 \<le> y" "y \<le> 20" by simp_all
  show "year (result.progression (calculateProgression selectedYears d) ! y) = y"
    by (rule row_later [OF y])
  show "row.startingSalary (result.progression (calculateProgression selectedYears d) ! y) =
        row.finalSalary (result.progression (calculateProgression selectedYears d) ! (y - 1))"
    by (rule row_later [OF y])
  show "row.colCompensation (result.progression (calculateProgression selectedYears d) ! y) =
        row.startingSalary (result.progression (calculateProgression selectedYears d) ! y) *
          (data.colCompensation d / 100)"
    by (rule row_later [OF y])
  show "row.finalSalary (result.progression (calculateProgression selectedYears d) ! y) =
        row.startingSalary (result.progression (calculateProgression selectedYears d) ! y) *
          (1 + data.colCompensation d / 100 +
             (if y \<in> selectedYears then data.promotionIncrease d / 100 else 0))"
    by (rule row_later [OF y])
qed

text \<open>
  In the scenario, year 5 is a promotion year: its row starts at the final salary of
  year 4 and ends at 1.13 times that.
\<close>

theorem progression_recurrence_witness:
  "(5::nat) \<in> {1..20} \<and>
   length (result.progression (calculateProgression scenario_years scenario_data)) = 21 \<and>
   row.startingSalary (result.progression (calculateProgression scenario_years scenario_data) ! 0)
     = 60000 \<and>
   row.startingSalary (result.progression (calculateProgression scenario_years scenario_data) ! 5)
     = row.finalSalary (result.progression (calculateProgression scenario_years scenario_data) ! 4) \<and>
   row.finalSalary (result.progression (calculateProgression scenario_years scenario_data) ! 5)
     = row.startingSalary (result.progression (calculateProgression scenario_years scenario_data) ! 5)
         * (113 / 100)"
proof -
  have five: "(5::nat) \<in> {1..20}" by simp
  note t = progression_recurrence [of scenario_years scenario_data, unfolded Let_def]
  note r = t [THEN conjunct2, THEN conjunct2, THEN conjunct2, THEN bspec, OF five]
  show ?thesis
    using five t [THEN conjunct1] t [THEN conjunct2, THEN conjunct1] r
    by (simp add: scenario_data_def scenario_years_def)
qed

text \<open>
  Claim C7. With no promotion year, for every starting salary S and cost-of-living rate c,
  the final salary of year 20 (the row's, and the one in the summary) is S times
  (1 + c/100) to the power 20; and when c is 0, every row's final salary is S.
\<close>

theorem col_only_growth:
  "row.finalSalary (result.progression (calculateProgression {} d) ! 20) =
     data.startingSalary d * (1 + data.colCompensation d / 100) ^ 20 \<and>
   result.finalSalary (calculateProgression {} d) =
     data.startingSalary d * (1 + data.colCompensation d / 100) ^ 20 \<and>
   (data.colCompensation d = 0 \<longrightarrow>
      (\<forall>r \<in> set (result.progression (calculateProgression {} d)).
         row.finalSalary r = data.startingSalary d))"
proof (intro conjI impI ballI)
  show last: "row.finalSalary (result.progression (calculateProgression {} d) ! 20) =
      data.startingSalary d * (1 + data.colCompensation d / 100) ^ 20"
    by (rule col_only_row) simp
  show "result.finalSalary (calculateProgression {} d) =
      data.startingSalary d * (1 + data.colCompensation d / 100) ^ 20"
    using last by (simp only: result_finalSalary)
next
  fix r
  assume c0: "data.colCompensation d = 0"
    and "r \<in> set (result.progression (calculateProgression {} d))"
  then obtain y where y: "y < 21"
    and r: "r = result.progression (calculateProgression {} d) ! y"
    by (auto simp: in_set_conv_nth progression_length)
  from y have "y \<le> 20" by simp
  from col_only_row [OF this, of d] c0 r
  show "row.finalSalary r = data.startingSalary d" by simp
qed

text \<open>With a rate of 0 and no promotion, the row of year 7 still ends at 60000.\<close>

theorem col_only_growth_witness:
  "data.colCompensation flat_data = 0 \<and>
   result.progression (calculateProgression {} flat_data) ! 7
     \<in> set (result.progression (calculateProgression {} flat_data)) \<and>
   row.finalSalary (result.progression (calculateProgression {} flat_data) ! 7) = 60000"
proof -
  have c0: "data.colCompensation flat_data = 0" by (simp add: flat_data_def)
  have mem: "result.progression (calculateProgression {} flat_data) ! 7
      \<in> set (result.progression (calculateProgression {} flat_data))"
    by (rule nth_mem) (simp add: progression_length)
  have s: "data.startingSalary flat_data = 60000" by (simp add: flat_data_def)
  show ?thesis
    using c0 mem s col_only_growth [of flat_data] by simp
qed

text \<open>
  Claim C8. When the promotion years lie in 1..20, as the page can only select them, the
  row of year \<open>y\<close> (for every \<open>y\<close> from 0 to 20) has promotion number 0 if \<open>y\<close> is not a
  promotion year, and otherwise the number of promotion years up to and including \<open>y\<close>;
  so the numbers on the promotion years are 1, 2, 3, ... in ascending year order, and
  strictly increasing.
\<close>

theorem promotion_sequence_numbers:
  assumes "selectedYears \<subseteq> {1..20}"
  shows "\<forall>y\<le>20.
     year (result.progression (calculateProgression selectedYears d) ! y) = y \<and>
     (y \<notin> selectedYears \<longrightarrow>
        row.promotionNumber (result.progression (calculateProgression selectedYears d) ! y) = 0) \<and>
     (y \<in> selectedYears \<longrightarrow>
        row.promotionNumber (result.progression (calculateProgression selectedYears d) ! y) =
          card {j \<in> selectedYears. j \<le> y}) \<and>
     (\<forall>y'\<le>20. y \<in> selectedYears \<and> y' \<in> selectedYears \<and> y < y' \<longrightarrow>
        row.promotionNumber (result.progression (calculateProgression selectedYears d) ! y) <
        row.promotionNumber (result.progression (calculateProgression selectedYears d) ! y'))"
proof (intro allI impI conjI)
  fix y :: nat assume y: "y \<le> 20"
  show "year (result.progression (calculateProgression selectedYears d) ! y) = y"
    using progression_row_ok [OF y, of selectedYears d] by (simp add: row_ok_def)
  show "row.promotionNumber (result.progression (calculateProgression selectedYears d) ! y) = 0"
    if "y \<notin> selectedYears"
    using that by (simp add: promotionNumber_row [OF y])
  show "row.promotionNumber (result.progression (calculateProgression selectedYears d) ! y) =
          card {j \<in> selectedYears. j \<le> y}"
    if "y \<in> selectedYears"
  proof -
    from that assms have "0 < y" by auto
    with that show ?thesis
      by (simp add: promotionNumber_row [OF y] selected_positive [OF assms])
  qed
  fix y' :: nat
  assume y': "y' \<le> 20" and sel: "y \<in> selectedYears \<and> y' \<in> selectedYears \<and> y < y'"
  from sel assms have pos: "0 < y" "0 < y'" by auto
  show "row.promotionNumber (result.progression (calculateProgression selectedYears d) ! y) <
        row.promotionNumber (result.progression (calculateProgression selectedYears d) ! y')"
    using sel pos card_selected_strict [of y selectedYears y']
    by (simp add: promotionNumber_row [OF y] promotionNumber_row [OF y']
        selected_positive [OF assms])
qed

text \<open>In the scenario, year 10 carries the second promotion and year 11 none.\<close>

theorem promotion_sequence_numbers_witness:
  "scenario_years \<subseteq> {1..20} \<and>
   row.promotionNumber
     (result.progression (calculateProgression scenario_years scenario_data) ! 10) = 2 \<and>
   row.promotionNumber
     (result.progression (calculateProgression scenario_years scenario_data) ! 11) = 0"
proof -
  have sub: "scenario_years \<subseteq> {1..20}" by (simp add: scenario_years_def)
  have c: "{j \<in> scenario_years. j \<le> (10::nat)} = {5, 10}"
    by (auto simp: scenario_years_def)
  have m: "(10::nat) \<in> scenario_years" "(11::nat) \<notin> scenario_years"
    by (simp_all add: scenario_years_def)
  note t = promotion_sequence_numbers [OF sub, of scenario_data]
  have ten: "(10::nat) \<le> 20" and eleven: "(11::nat) \<le> 20" by simp_all
  show ?thesis
    using sub m t [THEN spec, THEN mp, OF ten] t [THEN spec, THEN mp, OF eleven] c
    by simp
qed


section \<open>Facts about the string operations\<close>

text \<open>\<open>includes_str\<close> is the contiguous-sublist relation of the library.\<close>

lemma includes_str_sublist: "includes_str s t \<longleftrightarrow> sublist t s"
  by (induction s) (auto simp: sublist_Cons_right)

lemma includes_str_Nil: "includes_str s []"
  by (cases s) simp_all

lemma normalizeText_Nil: "normalizeText [] = []"
  by (simp add: normalizeText_def removePeriods_def trim_def toLowerCase_def)

text \<open>
  Normalizing twice is normalizing once for a text without a period. (With a period it
  need not be: removing a period can uncover white space that \<open>trim\<close> has already
  passed, as in \<open>''. york''\<close>.)
\<close>

lemma toLowerChar_idem: "toLowerChar (toLowerChar c) = toLowerChar c"
  by (simp add: toLowerChar_def isUpper_def Let_def)

lemma isWhiteSpace_toLowerChar: "isWhiteSpace (toLowerChar c) = isWhiteSpace c"
  by (auto simp add: toLowerChar_def isUpper_def isWhiteSpace_def Let_def)

lemma trim_toLowerCase: "trim (toLowerCase s) = toLowerCase (trim s)"
  by (simp add: trim_def toLowerCase_def dropWhile_map rev_map comp_def isWhiteSpace_toLowerChar)

lemma dropWhile_id: "xs = [] \<or> \<not> P (hd xs) \<Longrightarrow> dropWhile P xs = xs"
  by (cases xs) auto

lemma trim_idem: "trim (trim s) = trim s"
proof -
  define u where "u = dropWhile isWhiteSpace s"
  define w where "w = dropWhile isWhiteSpace (rev u)"
  have u: "u = [] \<or> \<not> isWhiteSpace (hd u)"
    unfolding u_def using hd_dropWhile [of isWhiteSpace s] by blast
  have w: "w = [] \<or> \<not> isWhiteSpace (hd w)"
    unfolding w_def using hd_dropWhile [of isWhiteSpace "rev u"] by blast
  have "rev w = [] \<or> \<not> isWhiteSpace (hd (rev w))"
  proof (cases "w = []")
    case True
    then show ?thesis by simp
  next
    case False
    obtain ws where "rev u = ws @ w"
      unfolding w_def by (metis takeWhile_dropWhile_id)
    then have "u = rev w @ rev ws" by (metis rev_append rev_rev_ident)
    with False have "hd (rev w) = hd u" "u \<noteq> []" by simp_all
    with u show ?thesis by simp
  qed
  then have 1: "dropWhile isWhiteSpace (rev w) = rev w" by (rule dropWhile_id)
  have 2: "dropWhile isWhiteSpace w = w" using w by (rule dropWhile_id)
  show ?thesis
    unfolding trim_def u_def [symmetric] w_def [symmetric] by (simp add: 1 2)
qed

lemma toLowerChar_period: "toLowerChar c = CHR ''.'' \<longleftrightarrow> c = CHR ''.''"
proof (cases "isUpper c")
  case True
  then have "of_char (toLowerChar c) = (of_char c + 32 :: nat)"
    by (auto simp: toLowerChar_def isUpper_def Let_def)
  moreover from True have "(65::nat) \<le> of_char c"
    by (auto simp: isUpper_def Let_def)
  ultimately have "of_char (toLowerChar c) \<noteq> (46::nat)" by simp
  then have "toLowerChar c \<noteq> CHR ''.''" by auto
  moreover from True have "c \<noteq> CHR ''.''" by (auto simp: isUpper_def Let_def)
  ultimately show ?thesis by simp
next
  case False
  then show ?thesis by (simp add: toLowerChar_def)
qed

lemma removePeriods_id: "CHR ''.'' \<notin> set s \<Longrightarrow> removePeriods s = s"
  by (induction s) (auto simp: removePeriods_def)

lemma normalizeText_idem_no_period:
  assumes "CHR ''.'' \<notin> set q"
  shows "normalizeText (normalizeText q) = normalizeText q"
proof -
  have "CHR ''.'' \<notin> set (toLowerCase q)"
  proof
    assume "CHR ''.'' \<in> set (toLowerCase q)"
    then obtain c where "c \<in> set q" "toLowerChar c = CHR ''.''"
      by (auto simp: toLowerCase_def)
    with assms show False by (simp add: toLowerChar_period)
  qed
  then have "CHR ''.'' \<notin> set (trim (toLowerCase q))"
    unfolding trim_def using set_dropWhileD by (metis set_rev)
  then have 1: "normalizeText q = trim (toLowerCase q)"
    by (simp add: normalizeText_def removePeriods_id)
  have "toLowerCase (toLowerCase q) = toLowerCase q"
    by (simp add: toLowerCase_def toLowerChar_idem)
  then have 2: "trim (toLowerCase (trim (toLowerCase q))) = trim (toLowerCase q)"
    by (simp add: trim_toLowerCase [symmetric] trim_idem)
  have "normalizeText (normalizeText q) = removePeriods (trim (toLowerCase q))"
    unfolding 1 by (simp add: normalizeText_def 2)
  then show ?thesis by (simp add: normalizeText_def)
qed


section \<open>Facts about the three loops of \<open>resolveCity\<close>\<close>

text \<open>
  When no alias of a metro is the empty string, the truthiness test is no restriction:
  the metro passes an alias loop exactly when one of its aliases passes the callback.
\<close>

lemma find_truthy_iff:
  "[] \<notin> set xs \<Longrightarrow>
   (case find P xs of None \<Rightarrow> False | Some found \<Rightarrow> truthy found) \<longleftrightarrow> (\<exists>a\<in>set xs. P a)"
  by (induction xs) (auto simp: truthy_def)

lemma exactAliasMatch_iff:
  "[] \<notin> set (aliases m) \<Longrightarrow>
   exactAliasMatch n m \<longleftrightarrow> (\<exists>a\<in>set (aliases m). normalizeText a = n)"
  unfolding exactAliasMatch_def by (rule find_truthy_iff)

lemma containsAliasMatch_iff:
  "[] \<notin> set (aliases m) \<Longrightarrow>
   containsAliasMatch n m \<longleftrightarrow>
     (\<exists>a\<in>set (aliases m). includes_str (toLowerCase a) n \<or> includes_str n (toLowerCase a))"
  unfolding containsAliasMatch_def by (rule find_truthy_iff)

lemma exactAliasLoop_first:
  "i < length M \<Longrightarrow> exactAliasMatch n (M ! i) \<Longrightarrow> \<forall>j<i. \<not> exactAliasMatch n (M ! j) \<Longrightarrow>
   exactAliasLoop n M = Some (cbsa (M ! i), msa (M ! i))"
proof (induction M arbitrary: i)
  case Nil
  then show ?case by simp
next
  case (Cons m M)
  show ?case
  proof (cases i)
    case 0
    with Cons.prems show ?thesis by simp
  next
    case (Suc k)
    with Cons.prems have "\<not> exactAliasMatch n m" by auto
    moreover have "exactAliasLoop n M = Some (cbsa (M ! k), msa (M ! k))"
      using Cons.prems Suc by (intro Cons.IH) auto
    ultimately show ?thesis using Suc by simp
  qed
qed

lemma exactAliasLoop_none:
  "\<forall>m\<in>set M. \<not> exactAliasMatch n m \<Longrightarrow> exactAliasLoop n M = None"
  by (induction M) simp_all

lemma containsAliasLoop_first:
  "i < length M \<Longrightarrow> containsAliasMatch n (M ! i) \<Longrightarrow>
   \<forall>j<i. \<not> containsAliasMatch n (M ! j) \<Longrightarrow>
   containsAliasLoop n M = Some (cbsa (M ! i), msa (M ! i))"
proof (induction M arbitrary: i)
  case Nil
  then show ?case by simp
next
  case (Cons m M)
  show ?case
  proof (cases i)
    case 0
    with Cons.prems show ?thesis by simp
  next
    case (Suc k)
    with Cons.prems have "\<not> containsAliasMatch n m" by auto
    moreover have "containsAliasLoop n M = Some (cbsa (M ! k), msa (M ! k))"
      using Cons.prems Suc by (intro Cons.IH) auto
    ultimately show ?thesis using Suc by simp
  qed
qed

lemma containsAliasLoop_none:
  "\<forall>m\<in>set M. \<not> containsAliasMatch n m \<Longrightarrow> containsAliasLoop n M = None"
  by (induction M) simp_all

lemma msaNameLoop_first:
  "i < length M \<Longrightarrow> msaNameMatch n (M ! i) \<Longrightarrow> \<forall>j<i. \<not> msaNameMatch n (M ! j) \<Longrightarrow>
   msaNameLoop n M = Some (cbsa (M ! i), msa (M ! i))"
proof (induction M arbitrary: i)
  case Nil
  then show ?case by simp
next
  case (Cons m M)
  show ?case
  proof (cases i)
    case 0
    with Cons.prems show ?thesis by simp
  next
    case (Suc k)
    with Cons.prems have "\<not> msaNameMatch n m" by auto
    moreover have "msaNameLoop n M = Some (cbsa (M ! k), msa (M ! k))"
      using Cons.prems Suc by (intro Cons.IH) auto
    ultimately show ?thesis using Suc by simp
  qed
qed

lemma msaNameLoop_none:
  "\<forall>m\<in>set M. \<not> msaNameMatch n m \<Longrightarrow> msaNameLoop n M = None"
  by (induction M) simp_all

lemma resolveCity_nonempty:
  "cityName \<noteq> [] \<Longrightarrow>
   resolveCity M cityName =
     (case exactAliasLoop (normalizeText cityName) M of
        Some r \<Rightarrow> Some r
      | None \<Rightarrow>
         (case containsAliasLoop (normalizeText cityName) M of
            Some r \<Rightarrow> Some r
          | None \<Rightarrow> msaNameLoop (normalizeText cityName) M))"
  by (simp add: resolveCity_def truthy_def Let_def)

lemma resolveCity_empty: "resolveCity M [] = None"
  by (simp add: resolveCity_def truthy_def)

lemma exactAliasMatch_blank:
  "\<forall>a\<in>set (aliases m). normalizeText a \<noteq> [] \<Longrightarrow> \<not> exactAliasMatch [] m"
proof -
  assume "\<forall>a\<in>set (aliases m). normalizeText a \<noteq> []"
  then have "find (\<lambda>alias. normalizeText alias = []) (aliases m) = None"
    by (simp add: find_None_iff)
  then show ?thesis by (simp add: exactAliasMatch_def)
qed

lemma containsAliasMatch_blank:
  assumes "aliases m \<noteq> []" and "\<forall>a\<in>set (aliases m). normalizeText a \<noteq> []"
  shows "containsAliasMatch [] m"
proof -
  from assms(1) obtain a rest where as: "aliases m = a # rest" by (cases "aliases m") auto
  with assms(2) have "normalizeText a \<noteq> []" by simp
  then have "a \<noteq> []" using normalizeText_Nil by auto
  then show ?thesis
    by (simp add: containsAliasMatch_def as includes_str_Nil truthy_def)
qed

lemma msaNameMatch_blank: "msaNameMatch [] m"
  by (simp add: msaNameMatch_def Let_def includes_str_Nil)


text \<open>
  Where the tests of the code are the tests of the specification: on a metro whose
  aliases are non-empty strings without periods and without outer white space (for the
  alias tiers), and whose canonical name has no outer white space (for the name tier).
\<close>

lemma normalizeText_clean_alias:
  assumes "CHR ''.'' \<notin> set a" and "trim a = a"
  shows "normalizeText a = toLowerCase a"
proof -
  have "trim (toLowerCase a) = toLowerCase a"
    using assms(2) by (simp add: trim_toLowerCase)
  moreover have "CHR ''.'' \<notin> set (toLowerCase a)"
  proof
    assume "CHR ''.'' \<in> set (toLowerCase a)"
    then obtain c where "c \<in> set a" "toLowerChar c = CHR ''.''"
      by (auto simp: toLowerCase_def)
    with assms(1) show False by (simp add: toLowerChar_period)
  qed
  ultimately show ?thesis
    by (simp add: normalizeText_def removePeriods_id)
qed

lemma normalizeText_clean_name:
  assumes "trim s = s"
  shows "normalizeText s = removePeriods (toLowerCase s)"
  using assms by (simp add: normalizeText_def trim_toLowerCase)

lemma exactAliasMatch_spec:
  "[] \<notin> set (aliases m) \<Longrightarrow> exactAliasMatch n m = spec_exactAliasMatch n m"
  by (simp add: exactAliasMatch_iff spec_exactAliasMatch_def)

lemma containsAliasMatch_spec:
  assumes "\<forall>a\<in>set (aliases m). a \<noteq> [] \<and> CHR ''.'' \<notin> set a \<and> trim a = a"
  shows "containsAliasMatch n m = spec_substringAliasMatch n m"
proof -
  from assms have ne: "[] \<notin> set (aliases m)" by auto
  from assms have "\<forall>a\<in>set (aliases m). normalizeText a = toLowerCase a"
    by (simp add: normalizeText_clean_alias)
  then show ?thesis
    by (simp add: containsAliasMatch_iff [OF ne] spec_substringAliasMatch_def)
qed

lemma msaNameMatch_spec:
  "trim (msa m) = msa m \<Longrightarrow> msaNameMatch n m = spec_substringNameMatch n m"
  by (simp add: msaNameMatch_def spec_substringNameMatch_def Let_def normalizeText_clean_name)

lemma example_table_clean:
  "\<forall>m\<in>set [new_york, boston]. \<forall>a\<in>set (aliases m). a \<noteq> [] \<and> CHR ''.'' \<notin> set a \<and> trim a = a"
  "\<forall>m\<in>set [new_york, boston]. trim (msa m) = msa m"
proof -
  have "trim ''NYC'' = ''NYC''" "trim ''New York'' = ''New York''" "trim ''Boston'' = ''Boston''"
    "trim ''New York-Newark-Jersey City'' = ''New York-Newark-Jersey City''"
    "trim ''Boston-Cambridge-Newton'' = ''Boston-Cambridge-Newton''"
    by code_simp+
  then show
    "\<forall>m\<in>set [new_york, boston]. \<forall>a\<in>set (aliases m). a \<noteq> [] \<and> CHR ''.'' \<notin> set a \<and> trim a = a"
    "\<forall>m\<in>set [new_york, boston]. trim (msa m) = msa m"
    by (simp_all add: new_york_def boston_def)
qed


section \<open>Properties of the city resolver\<close>

text \<open>
  Claim C2 says that the query and every alias and canonical name compared with it are
  normalized alike (lower case, trimmed, periods removed) in all three loops. The code
  does so in the first loop only: the second lower-cases the alias and keeps its periods
  and outer white space, the third removes the periods of the name and does not trim it.
  So the query \<open>St. Louis MO\<close>, which contains the alias \<open>St. Louis\<close> both as typed and
  after both are normalized, does not pass the second loop for that metro, and is not
  resolved at all.
\<close>

theorem contains_tier_skips_normalization:
  "includes_str ''St. Louis MO'' ''St. Louis'' \<and>
   includes_str (normalizeText ''St. Louis MO'') (normalizeText ''St. Louis'') \<and>
   \<not> containsAliasMatch (normalizeText ''St. Louis MO'') st_louis \<and>
   resolveCity [st_louis] ''St. Louis MO'' = None"
proof -
  have "includes_str ''St. Louis MO'' ''St. Louis''" by code_simp
  moreover have "includes_str (normalizeText ''St. Louis MO'') (normalizeText ''St. Louis'')"
    by code_simp
  moreover have "\<not> containsAliasMatch (normalizeText ''St. Louis MO'') st_louis" by code_simp
  moreover have "resolveCity [st_louis] ''St. Louis MO'' = None" by code_simp
  ultimately show ?thesis by simp
qed

text \<open>
  Claim C3, for a query that is not the empty string, on a table in which every alias is
  a non-empty string without periods or outer white space and no canonical name has
  outer white space. Let \<open>n\<close> be the normalized query. The first metro in table order
  with an alias whose normalized form equals \<open>n\<close> is the result; if there is none, the
  first metro with an alias whose normalized form contains \<open>n\<close> or is contained in it;
  if there is none either, the first metro whose normalized canonical name contains \<open>n\<close>
  or is contained in it; and if no metro matches in any tier the result is \<open>None\<close>. A
  later tier is only reached when every metro failed the earlier ones, and nothing ranks
  the metros but their position.
\<close>

theorem resolveCity_tier_order:
  assumes "cityName \<noteq> []"
    and "\<forall>m\<in>set M. \<forall>a\<in>set (aliases m). a \<noteq> [] \<and> CHR ''.'' \<notin> set a \<and> trim a = a"
    and "\<forall>m\<in>set M. trim (msa m) = msa m"
  shows "(let n = normalizeText cityName in
    (\<forall>i<length M. spec_exactAliasMatch n (M ! i) \<and>
                   (\<forall>j<i. \<not> spec_exactAliasMatch n (M ! j)) \<longrightarrow>
        resolveCity M cityName = Some (cbsa (M ! i), msa (M ! i))) \<and>
    ((\<forall>m\<in>set M. \<not> spec_exactAliasMatch n m) \<longrightarrow>
       (\<forall>i<length M. spec_substringAliasMatch n (M ! i) \<and>
                      (\<forall>j<i. \<not> spec_substringAliasMatch n (M ! j)) \<longrightarrow>
          resolveCity M cityName = Some (cbsa (M ! i), msa (M ! i)))) \<and>
    ((\<forall>m\<in>set M. \<not> spec_exactAliasMatch n m \<and> \<not> spec_substringAliasMatch n m) \<longrightarrow>
       (\<forall>i<length M. spec_substringNameMatch n (M ! i) \<and>
                      (\<forall>j<i. \<not> spec_substringNameMatch n (M ! j)) \<longrightarrow>
          resolveCity M cityName = Some (cbsa (M ! i), msa (M ! i)))) \<and>
    ((\<forall>m\<in>set M. \<not> spec_exactAliasMatch n m \<and> \<not> spec_substringAliasMatch n m \<and>
                  \<not> spec_substringNameMatch n m) \<longrightarrow>
       resolveCity M cityName = None))"
proof -
  have ex: "exactAliasMatch n m = spec_exactAliasMatch n m" if "m \<in> set M" for n m
    using assms(2) that by (intro exactAliasMatch_spec) auto
  have co: "containsAliasMatch n m = spec_substringAliasMatch n m" if "m \<in> set M" for n m
    using assms(2) that by (intro containsAliasMatch_spec) auto
  have na: "msaNameMatch n m = spec_substringNameMatch n m" if "m \<in> set M" for n m
    using assms(3) that by (intro msaNameMatch_spec) auto
  have nth: "M ! i \<in> set M" if "i < length M" for i
    using that by simp
  show ?thesis
    unfolding Let_def
  proof (intro conjI allI impI)
    fix i
    assume i: "i < length M"
      and h: "spec_exactAliasMatch (normalizeText cityName) (M ! i) \<and>
           (\<forall>j<i. \<not> spec_exactAliasMatch (normalizeText cityName) (M ! j))"
    have "exactAliasMatch (normalizeText cityName) (M ! i)"
      using h i by (simp add: ex nth)
    moreover have "\<forall>j<i. \<not> exactAliasMatch (normalizeText cityName) (M ! j)"
      using h i by (simp add: ex nth)
    ultimately show "resolveCity M cityName = Some (cbsa (M ! i), msa (M ! i))"
      using i by (simp add: resolveCity_nonempty [OF assms(1)] exactAliasLoop_first)
  next
    fix i
    assume none: "\<forall>m\<in>set M. \<not> spec_exactAliasMatch (normalizeText cityName) m"
      and i: "i < length M"
      and h: "spec_substringAliasMatch (normalizeText cityName) (M ! i) \<and>
           (\<forall>j<i. \<not> spec_substringAliasMatch (normalizeText cityName) (M ! j))"
    have "\<forall>m\<in>set M. \<not> exactAliasMatch (normalizeText cityName) m"
      using none by (simp add: ex)
    moreover have "containsAliasMatch (normalizeText cityName) (M ! i)"
      using h i by (simp add: co nth)
    moreover have "\<forall>j<i. \<not> containsAliasMatch (normalizeText cityName) (M ! j)"
      using h i by (simp add: co nth)
    ultimately show "resolveCity M cityName = Some (cbsa (M ! i), msa (M ! i))"
      using i
      by (simp add: resolveCity_nonempty [OF assms(1)] exactAliasLoop_none
          containsAliasLoop_first)
  next
    fix i
    assume none: "\<forall>m\<in>set M. \<not> spec_exactAliasMatch (normalizeText cityName) m \<and>
              \<not> spec_substringAliasMatch (normalizeText cityName) m"
      and i: "i < length M"
      and h: "spec_substringNameMatch (normalizeText cityName) (M ! i) \<and>
           (\<forall>j<i. \<not> spec_substringNameMatch (normalizeText cityName) (M ! j))"
    have "\<forall>m\<in>set M. \<not> exactAliasMatch (normalizeText cityName) m"
      using none by (simp add: ex)
    moreover have "\<forall>m\<in>set M. \<not> containsAliasMatch (normalizeText cityName) m"
      using none by (simp add: co)
    moreover have "msaNameMatch (normalizeText cityName) (M ! i)"
      using h i by (simp add: na nth)
    moreover have "\<forall>j<i. \<not> msaNameMatch (normalizeText cityName) (M ! j)"
      using h i by (simp add: na nth)
    ultimately show "resolveCity M cityName = Some (cbsa (M ! i), msa (M ! i))"
      using i
      by (simp add: resolveCity_nonempty [OF assms(1)] exactAliasLoop_none
          containsAliasLoop_none msaNameLoop_first)
  next
    assume none: "\<forall>m\<in>set M. \<not> spec_exactAliasMatch (normalizeText cityName) m \<and>
              \<not> spec_substringAliasMatch (normalizeText cityName) m \<and>
              \<not> spec_substringNameMatch (normalizeText cityName) m"
    have "\<forall>m\<in>set M. \<not> exactAliasMatch (normalizeText cityName) m"
      using none by (simp add: ex)
    moreover have "\<forall>m\<in>set M. \<not> containsAliasMatch (normalizeText cityName) m"
      using none by (simp add: co)
    moreover have "\<forall>m\<in>set M. \<not> msaNameMatch (normalizeText cityName) m"
      using none by (simp add: na)
    ultimately show "resolveCity M cityName = None"
      by (simp add: resolveCity_nonempty [OF assms(1)] exactAliasLoop_none
          containsAliasLoop_none msaNameLoop_none)
  qed
qed

text \<open>
  \<open>nyc\<close> is an exact alias of the first metro; \<open>bost\<close> is no exact alias and is
  contained in an alias of the second metro only.
\<close>

theorem resolveCity_tier_order_witness:
  "''nyc'' \<noteq> [] \<and> spec_exactAliasMatch (normalizeText ''nyc'') new_york \<and>
   resolveCity [new_york, boston] ''nyc'' = Some (''35620'', ''New York-Newark-Jersey City'') \<and>
   ''bost'' \<noteq> [] \<and>
   \<not> spec_exactAliasMatch (normalizeText ''bost'') new_york \<and>
   \<not> spec_exactAliasMatch (normalizeText ''bost'') boston \<and>
   \<not> spec_substringAliasMatch (normalizeText ''bost'') new_york \<and>
   spec_substringAliasMatch (normalizeText ''bost'') boston \<and>
   resolveCity [new_york, boston] ''bost'' = Some (''14460'', ''Boston-Cambridge-Newton'')"
proof -
  have q1: "''nyc'' \<noteq> []" and q2: "''bost'' \<noteq> []" by simp_all
  have e1: "spec_exactAliasMatch (normalizeText ''nyc'') new_york" by code_simp
  have n1: "\<not> spec_exactAliasMatch (normalizeText ''bost'') new_york" by code_simp
  have n2: "\<not> spec_exactAliasMatch (normalizeText ''bost'') boston" by code_simp
  have n3: "\<not> spec_substringAliasMatch (normalizeText ''bost'') new_york" by code_simp
  have c2: "spec_substringAliasMatch (normalizeText ''bost'') boston" by code_simp
  have r1: "resolveCity [new_york, boston] ''nyc'' = Some (cbsa new_york, msa new_york)"
    using resolveCity_tier_order [OF q1 example_table_clean, unfolded Let_def,
        THEN conjunct1, THEN spec, of 0] e1
    by simp
  have r2: "resolveCity [new_york, boston] ''bost'' = Some (cbsa boston, msa boston)"
    using resolveCity_tier_order [OF q2 example_table_clean, unfolded Let_def,
        THEN conjunct2, THEN conjunct1, THEN mp, THEN spec, of 1] n1 n2 n3 c2
    by simp
  show ?thesis
    using q1 q2 e1 n1 n2 n3 c2 r1 r2 by (simp add: new_york_def boston_def)
qed

text \<open>
  The empty query is answered \<open>None\<close> by the guard at the head of \<open>resolveCity\<close>,
  before any tier runs, although it is contained in the aliases of both metros (every
  string contains the empty string) and equals none.
\<close>

theorem resolveCity_empty_query_counterexample:
  "\<not> spec_exactAliasMatch (normalizeText []) new_york \<and>
   \<not> spec_exactAliasMatch (normalizeText []) boston \<and>
   spec_substringAliasMatch (normalizeText []) new_york \<and>
   spec_substringAliasMatch (normalizeText []) boston \<and>
   resolveCity [new_york, boston] [] = None"
proof -
  have "\<not> spec_exactAliasMatch (normalizeText []) new_york" by code_simp
  moreover have "\<not> spec_exactAliasMatch (normalizeText []) boston" by code_simp
  moreover have "spec_substringAliasMatch (normalizeText []) new_york" by code_simp
  moreover have "spec_substringAliasMatch (normalizeText []) boston" by code_simp
  moreover have "resolveCity [new_york, boston] [] = None" by (rule resolveCity_empty)
  ultimately show ?thesis by simp
qed

text \<open>
  Off the tables of the statement above the code departs from the tier tests, and the
  statement is silent there. An empty string as the first alias that satisfies the
  callback is falsy, and hides the aliases after it; an alias with outer white space or
  with a period is compared untrimmed and with its period; a canonical name with outer
  white space is compared untrimmed. In each case the metro matches in the words of the
  specification and the query is not resolved.
\<close>

lemma blank_first_alias_skipped:
  "spec_substringAliasMatch (normalizeText ''abc'') blank_first_alias \<and>
   resolveCity [blank_first_alias] ''abc'' = None"
proof -
  have "spec_substringAliasMatch (normalizeText ''abc'') blank_first_alias" by code_simp
  moreover have "resolveCity [blank_first_alias] ''abc'' = None" by code_simp
  ultimately show ?thesis by simp
qed

lemma padded_alias_missed:
  "spec_substringAliasMatch (normalizeText ''abcd'') padded_alias \<and>
   resolveCity [padded_alias] ''abcd'' = None"
proof -
  have "spec_substringAliasMatch (normalizeText ''abcd'') padded_alias" by code_simp
  moreover have "resolveCity [padded_alias] ''abcd'' = None" by code_simp
  ultimately show ?thesis by simp
qed

lemma padded_name_missed:
  "spec_substringNameMatch (normalizeText ''abcd'') padded_name \<and>
   resolveCity [padded_name] ''abcd'' = None"
proof -
  have "spec_substringNameMatch (normalizeText ''abcd'') padded_name" by code_simp
  moreover have "resolveCity [padded_name] ''abcd'' = None" by code_simp
  ultimately show ?thesis by simp
qed

lemma period_alias_missed:
  "spec_substringAliasMatch (normalizeText ''St. Louis MO'') st_louis \<and>
   resolveCity [st_louis] ''St. Louis MO'' = None"
proof -
  have "spec_substringAliasMatch (normalizeText ''St. Louis MO'') st_louis" by code_simp
  moreover have "resolveCity [st_louis] ''St. Louis MO'' = None" by code_simp
  ultimately show ?thesis by simp
qed

text \<open>
  Claim C9, for a query whose normalized form is not empty and is not changed by
  normalizing it again (every query without a period is such): resolving the normalized
  form gives what resolving the query gives, for every table.
\<close>

theorem resolveCity_normalized_query:
  assumes "normalizeText q \<noteq> []"
    and "normalizeText (normalizeText q) = normalizeText q"
  shows "resolveCity M (normalizeText q) = resolveCity M q"
proof -
  from assms(1) have q: "q \<noteq> []" using normalizeText_Nil by auto
  show ?thesis
    unfolding resolveCity_nonempty [OF assms(1)] resolveCity_nonempty [OF q] assms(2) ..
qed

theorem resolveCity_normalized_query_witness:
  "normalizeText '' St. Louis '' \<noteq> [] \<and>
   normalizeText (normalizeText '' St. Louis '') = normalizeText '' St. Louis '' \<and>
   resolveCity [st_louis] (normalizeText '' St. Louis '') = resolveCity [st_louis] '' St. Louis '' \<and>
   resolveCity [st_louis] '' St. Louis '' = Some (''41180'', ''St. Louis, MO-IL'')"
proof -
  have a: "normalizeText '' St. Louis '' \<noteq> []" by code_simp
  have b: "normalizeText (normalizeText '' St. Louis '') = normalizeText '' St. Louis ''"
    by code_simp
  have c: "resolveCity [st_louis] '' St. Louis '' = Some (''41180'', ''St. Louis, MO-IL'')"
    by code_simp
  show ?thesis
    using a b c resolveCity_normalized_query [OF a b, of "[st_louis]"] by simp
qed

text \<open>
  Two queries for which the claim fails. The normalized form of \<open>.\<close> is the empty
  string, which is answered \<open>None\<close>, while \<open>.\<close> itself resolves to the first metro.
  The normalized form of \<open>. york\<close> is \<open>york\<close> with a space before it, which is contained
  in an alias of New York; normalized again it is \<open>york\<close>, an exact alias of York.
\<close>

theorem resolveCity_normalized_query_counterexample:
  "resolveCity [new_york, boston] ''.'' = Some (''35620'', ''New York-Newark-Jersey City'') \<and>
   resolveCity [new_york, boston] (normalizeText ''.'') = None \<and>
   resolveCity [new_york, york] ''. york'' = Some (''35620'', ''New York-Newark-Jersey City'') \<and>
   resolveCity [new_york, york] (normalizeText ''. york'') = Some (''49620'', ''York-Hanover'')"
proof -
  have "resolveCity [new_york, boston] ''.'' = Some (''35620'', ''New York-Newark-Jersey City'')"
    by code_simp
  moreover have "resolveCity [new_york, boston] (normalizeText ''.'') = None"
    by code_simp
  moreover have "resolveCity [new_york, york] ''. york'' =
      Some (''35620'', ''New York-Newark-Jersey City'')"
    by code_simp
  moreover have "resolveCity [new_york, york] (normalizeText ''. york'') =
      Some (''49620'', ''York-Hanover'')"
    by code_simp
  ultimately show ?thesis by simp
qed

text \<open>
  Claim C10, for a table in which no alias normalizes to the empty string. A query that
  is not empty but normalizes to the empty string is never answered \<open>None\<close> on a table
  with at least one metro; and when the first metro has an alias and no alias of the
  table normalizes to the empty string, the answer is the first metro.
\<close>

theorem resolveCity_blank_normalized_query:
  assumes "cityName \<noteq> []" and "normalizeText cityName = []"
  shows "resolveCity (m # rest) cityName \<noteq> None \<and>
     (aliases m \<noteq> [] \<and> (\<forall>m'\<in>set (m # rest). \<forall>a\<in>set (aliases m'). normalizeText a \<noteq> []) \<longrightarrow>
        resolveCity (m # rest) cityName = Some (cbsa m, msa m))"
proof (intro conjI impI)
  have "msaNameLoop [] (m # rest) = Some (cbsa m, msa m)"
    by (simp add: msaNameMatch_blank)
  then show "resolveCity (m # rest) cityName \<noteq> None"
    unfolding resolveCity_nonempty [OF assms(1)] assms(2)
    by (simp split: option.split)
next
  assume h: "aliases m \<noteq> [] \<and>
    (\<forall>m'\<in>set (m # rest). \<forall>a\<in>set (aliases m'). normalizeText a \<noteq> [])"
  then have "\<forall>m'\<in>set (m # rest). \<not> exactAliasMatch [] m'"
    using exactAliasMatch_blank by blast
  then have none: "exactAliasLoop [] (m # rest) = None"
    by (rule exactAliasLoop_none)
  have "containsAliasMatch [] m"
    using h by (intro containsAliasMatch_blank) simp_all
  then have "containsAliasLoop [] (m # rest) = Some (cbsa m, msa m)" by simp
  with none show "resolveCity (m # rest) cityName = Some (cbsa m, msa m)"
    unfolding resolveCity_nonempty [OF assms(1)] assms(2) by simp
qed

theorem resolveCity_blank_normalized_query_witness:
  "'' . '' \<noteq> [] \<and> normalizeText '' . '' = [] \<and> aliases new_york \<noteq> [] \<and>
   normalizeText ''NYC'' \<noteq> [] \<and> normalizeText ''New York'' \<noteq> [] \<and>
   normalizeText ''Boston'' \<noteq> [] \<and>
   resolveCity [new_york, boston] '' . '' = Some (''35620'', ''New York-Newark-Jersey City'')"
proof -
  have q: "'' . '' \<noteq> []" by simp
  have n: "normalizeText '' . '' = []" by code_simp
  have a: "aliases new_york \<noteq> []" by (simp add: new_york_def)
  have n1: "normalizeText ''NYC'' \<noteq> []" by code_simp
  have n2: "normalizeText ''New York'' \<noteq> []" by code_simp
  have n3: "normalizeText ''Boston'' \<noteq> []" by code_simp
  have all: "\<forall>m'\<in>set [new_york, boston]. \<forall>a\<in>set (aliases m'). normalizeText a \<noteq> []"
    using n1 n2 n3 by (simp add: new_york_def boston_def)
  have "resolveCity [new_york, boston] '' . '' = Some (cbsa new_york, msa new_york)"
    using resolveCity_blank_normalized_query [OF q n, of new_york "[boston]"] a all
    by blast
  then show ?thesis
    using q n a n1 n2 n3 by (simp add: new_york_def)
qed

text \<open>
  With an alias \<open>.\<close> on the second metro, the query \<open>.\<close> is an exact match of that
  metro, and the first loop returns it although the first metro has aliases.
\<close>

theorem resolveCity_blank_normalized_query_counterexample:
  "''.'' \<noteq> [] \<and> normalizeText ''.'' = [] \<and> aliases new_york \<noteq> [] \<and>
   resolveCity [new_york, period_alias] ''.'' =
     Some (''47900'', ''Washington-Arlington-Alexandria'') \<and>
   cbsa new_york = ''35620''"
proof -
  have "normalizeText ''.'' = []" by code_simp
  moreover have "resolveCity [new_york, period_alias] ''.'' =
     Some (''47900'', ''Washington-Arlington-Alexandria'')"
    by code_simp
  ultimately show ?thesis by (simp add: new_york_def)
qed


section \<open>Properties of the converter\<close>

lemma handleConvert_filled:
  assumes "trim f \<noteq> []" "trim t \<noteq> []" "amount \<noteq> 0"
  shows "handleConvert M R f t (Some amount) =
     (if amount < 15000 \<or> amount > 5000000 then Inl SalaryOutOfRange
      else case resolveCity M (trim f) of
             None \<Rightarrow> Inl FromCityNotRecognized
           | Some src \<Rightarrow>
              (case resolveCity M (trim t) of
                 None \<Rightarrow> Inl ToCityNotRecognized
               | Some dst \<Rightarrow>
                  if fst src = fst dst then Inl SameDestination
                  else
                    (case R (fst src) of
                       None \<Rightarrow> Inl (NoRPPData (fst src))
                     | Some srcValue \<Rightarrow>
                        (case R (fst dst) of
                           None \<Rightarrow> Inl (NoRPPData (fst dst))
                         | Some dstValue \<Rightarrow>
                            Inr \<lparr> fromMSA = src, toMSA = dst, salary = amount,
                                  equivalent = amount * (dstValue / srcValue),
                                  delta = ((amount * (dstValue / srcValue) - amount) / amount) * 100,
                                  fromRPP = srcValue, toRPP = dstValue,
                                  ratio = dstValue / srcValue \<rparr>))))"
  using assms
  by (simp add: handleConvert_def truthy_def fetchRPP_def Let_def split: option.split)

lemma handleConvert_unfilled:
  "trim f = [] \<or> trim t = [] \<or> s = None \<or> s = Some 0 \<Longrightarrow>
   handleConvert M R f t s = Inl FillInAllFields"
  by (auto simp: handleConvert_def truthy_def Let_def split: option.split)

text \<open>
  Claim C5, with both city fields filled in. A salary of 15000 or of 5000000 is never
  answered with the range error, and passes on to the conversion: when the two cities
  resolve to different regions that both have an index value, the result is the
  conversion of that salary. A salary of 14999.99 or of 5000000.01 is answered with the
  range error whatever the metro table and the index table hold, so before any city is
  resolved or any index looked up.
\<close>

theorem salary_bounds_inclusive:
  "(handleConvert M R f t (Some 15000) \<noteq> Inl SalaryOutOfRange \<and>
    handleConvert M R f t (Some 5000000) \<noteq> Inl SalaryOutOfRange) \<and>
   (resolveCity M (trim f) = Some src \<and> resolveCity M (trim t) = Some dst \<and>
    fst src \<noteq> fst dst \<and> R (fst src) = Some x \<and> R (fst dst) = Some y \<longrightarrow>
      handleConvert M R f t (Some 15000) =
        Inr \<lparr> fromMSA = src, toMSA = dst, salary = 15000,
              equivalent = 15000 * (y / x),
              delta = ((15000 * (y / x) - 15000) / 15000) * 100,
              fromRPP = x, toRPP = y, ratio = y / x \<rparr> \<and>
      handleConvert M R f t (Some 5000000) =
        Inr \<lparr> fromMSA = src, toMSA = dst, salary = 5000000,
              equivalent = 5000000 * (y / x),
              delta = ((5000000 * (y / x) - 5000000) / 5000000) * 100,
              fromRPP = x, toRPP = y, ratio = y / x \<rparr>) \<and>
   (truthy (trim f) \<and> truthy (trim t) \<longrightarrow>
      handleConvert M R f t (Some 14999.99) = Inl SalaryOutOfRange \<and>
      handleConvert M R f t (Some 5000000.01) = Inl SalaryOutOfRange)"
proof (intro conjI impI)
  show "handleConvert M R f t (Some 15000) \<noteq> Inl SalaryOutOfRange"
  proof (cases "trim f = [] \<or> trim t = []")
    case True
    then show ?thesis by (simp add: handleConvert_unfilled)
  next
    case False
    then show ?thesis
      by (simp add: handleConvert_filled split: option.split)
  qed
  show "handleConvert M R f t (Some 5000000) \<noteq> Inl SalaryOutOfRange"
  proof (cases "trim f = [] \<or> trim t = []")
    case True
    then show ?thesis by (simp add: handleConvert_unfilled)
  next
    case False
    then show ?thesis
      by (simp add: handleConvert_filled split: option.split)
  qed
next
  assume h: "resolveCity M (trim f) = Some src \<and> resolveCity M (trim t) = Some dst \<and>
    fst src \<noteq> fst dst \<and> R (fst src) = Some x \<and> R (fst dst) = Some y"
  then have ft: "trim f \<noteq> []" "trim t \<noteq> []"
    using resolveCity_empty [of M] by auto
  show "handleConvert M R f t (Some 15000) =
        Inr \<lparr> fromMSA = src, toMSA = dst, salary = 15000,
              equivalent = 15000 * (y / x),
              delta = ((15000 * (y / x) - 15000) / 15000) * 100,
              fromRPP = x, toRPP = y, ratio = y / x \<rparr>"
    using h by (simp add: handleConvert_filled [OF ft])
  show "handleConvert M R f t (Some 5000000) =
        Inr \<lparr> fromMSA = src, toMSA = dst, salary = 5000000,
              equivalent = 5000000 * (y / x),
              delta = ((5000000 * (y / x) - 5000000) / 5000000) * 100,
              fromRPP = x, toRPP = y, ratio = y / x \<rparr>"
    using h by (simp add: handleConvert_filled [OF ft])
next
  assume "truthy (trim f) \<and> truthy (trim t)"
  then have ft: "trim f \<noteq> []" "trim t \<noteq> []" by (simp_all add: truthy_def)
  show "handleConvert M R f t (Some 14999.99) = Inl SalaryOutOfRange"
    by (simp add: handleConvert_filled [OF ft])
  show "handleConvert M R f t (Some 5000000.01) = Inl SalaryOutOfRange"
    by (simp add: handleConvert_filled [OF ft])
qed

text \<open>
  From New York (index 120) to Boston (index 80): 15000 is converted to 10000, and
  14999.99 and 5000000.01 are refused.
\<close>

theorem salary_bounds_inclusive_witness:
  "truthy (trim ''NYC'') \<and> truthy (trim '' Boston '') \<and>
   resolveCity [new_york, boston] (trim ''NYC'') =
     Some (''35620'', ''New York-Newark-Jersey City'') \<and>
   resolveCity [new_york, boston] (trim '' Boston '') =
     Some (''14460'', ''Boston-Cambridge-Newton'') \<and>
   example_rpp ''35620'' = Some 120 \<and> example_rpp ''14460'' = Some 80 \<and>
   handleConvert [new_york, boston] example_rpp ''NYC'' '' Boston '' (Some 14999.99) =
     Inl SalaryOutOfRange \<and>
   handleConvert [new_york, boston] example_rpp ''NYC'' '' Boston '' (Some 5000000.01) =
     Inl SalaryOutOfRange \<and>
   handleConvert [new_york, boston] example_rpp ''NYC'' '' Boston '' (Some 15000) =
     Inr \<lparr> fromMSA = (''35620'', ''New York-Newark-Jersey City''),
           toMSA = (''14460'', ''Boston-Cambridge-Newton''), salary = 15000,
           equivalent = 10000, delta = - (100 / 3), fromRPP = 120, toRPP = 80,
           ratio = 2 / 3 \<rparr>"
proof -
  have a: "truthy (trim ''NYC'')" by code_simp
  have b: "truthy (trim '' Boston '')" by code_simp
  have rf: "resolveCity [new_york, boston] (trim ''NYC'') =
     Some (''35620'', ''New York-Newark-Jersey City'')" by code_simp
  have rt: "resolveCity [new_york, boston] (trim '' Boston '') =
     Some (''14460'', ''Boston-Cambridge-Newton'')" by code_simp
  have x: "example_rpp ''35620'' = Some 120" by (simp add: example_rpp_def)
  have y: "example_rpp ''14460'' = Some 80" by (simp add: example_rpp_def)
  note t = salary_bounds_inclusive [of "[new_york, boston]" example_rpp "''NYC''" "'' Boston ''"
      "(''35620'', ''New York-Newark-Jersey City'')"
      "(''14460'', ''Boston-Cambridge-Newton'')" 120 80]
  have acc: "handleConvert [new_york, boston] example_rpp ''NYC'' '' Boston '' (Some 15000) =
     Inr \<lparr> fromMSA = (''35620'', ''New York-Newark-Jersey City''),
           toMSA = (''14460'', ''Boston-Cambridge-Newton''), salary = 15000,
           equivalent = 10000, delta = - (100 / 3), fromRPP = 120, toRPP = 80,
           ratio = 2 / 3 \<rparr>"
    using t [THEN conjunct2, THEN conjunct1] rf rt x y by simp
  have rej: "handleConvert [new_york, boston] example_rpp ''NYC'' '' Boston '' (Some 14999.99) =
     Inl SalaryOutOfRange \<and>
   handleConvert [new_york, boston] example_rpp ''NYC'' '' Boston '' (Some 5000000.01) =
     Inl SalaryOutOfRange"
    using t [THEN conjunct2, THEN conjunct2] a b by blast
  show ?thesis
    using a b rf rt x y acc rej by simp
qed

text \<open>
  With a blank city field the test \<open>!fromCity || !toCity || !salary\<close>, which comes
  first, ends the conversion, and the out-of-range salary is not reported as such.
\<close>

theorem salary_bounds_blank_city_counterexample:
  "handleConvert [new_york, boston] example_rpp '' '' ''Boston'' (Some 14999.99) =
     Inl FillInAllFields \<and>
   handleConvert [new_york, boston] example_rpp '' '' ''Boston'' (Some 5000000.01) =
     Inl FillInAllFields"
proof -
  have "trim '' '' = []" by code_simp
  then show ?thesis by (simp add: handleConvert_unfilled)
qed

text \<open>
  Claim C6. When the two city fields resolve to the same region code, whatever their
  texts, no salary gives a conversion result, and a salary within the bounds gives the
  same-region error.
\<close>

theorem same_region_rejected:
  assumes "resolveCity M (trim f) = Some a"
    and "resolveCity M (trim t) = Some b"
    and "fst a = fst b"
  shows "(\<forall>r. handleConvert M R f t s \<noteq> Inr r) \<and>
     (15000 \<le> amount \<and> amount \<le> 5000000 \<longrightarrow>
        handleConvert M R f t (Some amount) = Inl SameDestination)"
proof -
  from assms(1) have f: "trim f \<noteq> []" using resolveCity_empty [of M] by auto
  from assms(2) have t: "trim t \<noteq> []" using resolveCity_empty [of M] by auto
  have no_result: "handleConvert M R f t s \<noteq> Inr r" for r
  proof (cases "s = None \<or> s = Some 0")
    case True
    then show ?thesis by (simp add: handleConvert_unfilled)
  next
    case False
    then obtain x where "s = Some x" "x \<noteq> 0" by auto
    then show ?thesis
      using assms by (simp add: handleConvert_filled [OF f t])
  qed
  have rejected: "handleConvert M R f t (Some amount) = Inl SameDestination"
    if "15000 \<le> amount \<and> amount \<le> 5000000"
  proof -
    from that have "amount \<noteq> 0" by auto
    then show ?thesis
      using assms that by (simp add: handleConvert_filled [OF f t])
  qed
  show ?thesis using no_result rejected by blast
qed

theorem same_region_rejected_witness:
  "resolveCity [new_york, boston] (trim ''NYC'') = Some (''35620'', ''New York-Newark-Jersey City'') \<and>
   resolveCity [new_york, boston] (trim '' new york'') =
     Some (''35620'', ''New York-Newark-Jersey City'') \<and>
   (15000::real) \<le> 60000 \<and> (60000::real) \<le> 5000000 \<and>
   handleConvert [new_york, boston] example_rpp ''NYC'' '' new york'' (Some 60000) =
     Inl SameDestination"
proof -
  have a: "resolveCity [new_york, boston] (trim ''NYC'') =
      Some (''35620'', ''New York-Newark-Jersey City'')"
    by code_simp
  have b: "resolveCity [new_york, boston] (trim '' new york'') =
      Some (''35620'', ''New York-Newark-Jersey City'')"
    by code_simp
  have c: "fst (''35620'', ''New York-Newark-Jersey City'') =
      fst (''35620'', ''New York-Newark-Jersey City'')"
    by simp
  show ?thesis
    using a b same_region_rejected [OF a b c, of example_rpp None 60000] by simp
qed

text \<open>
  Claim C4, for a conversion whose equivalent salary is itself within the bounds. If
  converting \<open>amount\<close> from A to B succeeds with an equivalent salary between 15000 and
  5000000, then converting that equivalent salary from B to A succeeds and gives back
  \<open>amount\<close>, the two ratios being inverse to each other. (The bound on the equivalent
  salary excludes an index value of 0.) Numbers are exact reals.
\<close>

theorem conversion_round_trip:
  assumes "handleConvert M R f t (Some amount) = Inr r"
    and "15000 \<le> equivalent r" and "equivalent r \<le> 5000000"
  shows "\<exists>r'. handleConvert M R t f (Some (equivalent r)) = Inr r' \<and>
     equivalent r' = amount \<and> ratio r' * ratio r = 1"
proof -
  have f: "trim f \<noteq> []" and t: "trim t \<noteq> []" and nz: "amount \<noteq> 0"
    using assms(1) handleConvert_unfilled [of f t "Some amount" M R] by auto
  note first = assms(1) [unfolded handleConvert_filled [OF f t nz]]
  from first obtain src dst x y where
    src: "resolveCity M (trim f) = Some src" and dst: "resolveCity M (trim t) = Some dst"
    and diff: "fst src \<noteq> fst dst"
    and x: "R (fst src) = Some x" and y: "R (fst dst) = Some y"
    and e: "equivalent r = amount * (y / x)" and ra: "ratio r = y / x"
    by (auto split: if_splits option.splits)
  from assms(2) e have "amount * (y / x) \<noteq> 0" by auto
  then have x0: "x \<noteq> 0" and y0: "y \<noteq> 0" by auto
  have enz: "equivalent r \<noteq> 0" using assms(2) by auto
  have rt: "amount * (y / x) * (x / y) = amount" using x0 y0 by simp
  show ?thesis
    unfolding handleConvert_filled [OF t f enz]
    using assms(2,3) src dst diff x y e ra rt x0 y0 by auto
qed

theorem conversion_round_trip_witness:
  "handleConvert [new_york, boston] example_rpp ''NYC'' ''Boston'' (Some 60000) =
     Inr \<lparr> fromMSA = (''35620'', ''New York-Newark-Jersey City''),
           toMSA = (''14460'', ''Boston-Cambridge-Newton''), salary = 60000,
           equivalent = 40000, delta = - (100 / 3), fromRPP = 120, toRPP = 80,
           ratio = 2 / 3 \<rparr> \<and>
   (\<exists>r'. handleConvert [new_york, boston] example_rpp ''Boston'' ''NYC'' (Some 40000) = Inr r' \<and>
      equivalent r' = 60000)"
proof -
  have a: "handleConvert [new_york, boston] example_rpp ''NYC'' ''Boston'' (Some 60000) =
     Inr \<lparr> fromMSA = (''35620'', ''New York-Newark-Jersey City''),
           toMSA = (''14460'', ''Boston-Cambridge-Newton''), salary = 60000,
           equivalent = 40000, delta = - (100 / 3), fromRPP = 120, toRPP = 80,
           ratio = 2 / 3 \<rparr>"
    by code_simp
  show ?thesis
    using a conversion_round_trip [OF a] by auto
qed

text \<open>
  20000 in New York (index 120) is 40000/3 in Boston (index 80); that is below 15000, and
  converting it back is refused with the range error.
\<close>

theorem conversion_round_trip_counterexample:
  "handleConvert [new_york, boston] example_rpp ''NYC'' ''Boston'' (Some 20000) =
     Inr \<lparr> fromMSA = (''35620'', ''New York-Newark-Jersey City''),
           toMSA = (''14460'', ''Boston-Cambridge-Newton''), salary = 20000,
           equivalent = 40000 / 3, delta = - (100 / 3), fromRPP = 120, toRPP = 80,
           ratio = 2 / 3 \<rparr> \<and>
   handleConvert [new_york, boston] example_rpp ''Boston'' ''NYC'' (Some (40000 / 3)) =
     Inl SalaryOutOfRange"
proof -
  have "handleConvert [new_york, boston] example_rpp ''NYC'' ''Boston'' (Some 20000) =
     Inr \<lparr> fromMSA = (''35620'', ''New York-Newark-Jersey City''),
           toMSA = (''14460'', ''Boston-Cambridge-Newton''), salary = 20000,
           equivalent = 40000 / 3, delta = - (100 / 3), fromRPP = 120, toRPP = 80,
           ratio = 2 / 3 \<rparr>"
    by code_simp
  moreover have "handleConvert [new_york, boston] example_rpp ''Boston'' ''NYC''
      (Some (40000 / 3)) = Inl SalaryOutOfRange"
    by code_simp
  ultimately show ?thesis by simp
qed

end
